theory Spec2Isabelle
  imports Main "HOL-Library.Word"
begin

unbundle bit_operations_syntax

section \<open>JavaScript strings\<close>

text \<open>
  A JavaScript string is modelled as a list of code units below 256 (the Latin-1 part of
  UTF-16), which is what \<^typ>\<open>string\<close> holds. The library functions used by
  \<^verbatim>\<open>src/index.js\<close> are written out for that range.
\<close>

text \<open>White space of \<^verbatim>\<open>String.prototype.trim\<close>, of \<^verbatim>\<open>\s\<close> and of
  \<^verbatim>\<open>parseInt\<close>: TAB, LF, VT, FF, CR, SP and NBSP.\<close>

definition isWhiteSpace :: "char \<Rightarrow> bool" where
  "isWhiteSpace c = (of_char c \<in> {9, 10, 11, 12, 13, 32, 160 :: nat})"

definition trim :: "string \<Rightarrow> string" where
  "trim s = rev (dropWhile isWhiteSpace (rev (dropWhile isWhiteSpace s)))"

text \<open>\<^verbatim>\<open>toLowerCase\<close>: A-Z and the Latin-1 capitals (U+00C0 to U+00DE, without the
  multiplication sign U+00D7) move up by 32; every other code unit is kept.\<close>

definition lowerChar :: "char \<Rightarrow> char" where
  "lowerChar c =
     (let n = of_char c :: nat in
      if (65 \<le> n \<and> n \<le> 90) \<or> (192 \<le> n \<and> n \<le> 222 \<and> n \<noteq> 215)
      then char_of (n + 32) else c)"

definition toLowerCase :: "string \<Rightarrow> string" where
  "toLowerCase s = map lowerChar s"

text \<open>\<^verbatim>\<open>s.startsWith(p)\<close> and \<^verbatim>\<open>s.includes(p)\<close>.\<close>

definition startsWith :: "string \<Rightarrow> string \<Rightarrow> bool" where
  "startsWith s p = (take (length p) s = p)"

fun includes_str :: "string \<Rightarrow> string \<Rightarrow> bool" where
  "includes_str [] p = (p = [])"
| "includes_str (c # cs) p = (startsWith (c # cs) p \<or> includes_str cs p)"

text \<open>\<^verbatim>\<open>s.split('\n')\<close>: always at least one piece.\<close>

fun split_nl :: "string \<Rightarrow> string list" where
  "split_nl [] = [] # []"
| "split_nl (c # cs) =
     (if c = CHR 0x0A then [] # split_nl cs
      else (case split_nl cs of [] \<Rightarrow> [c] # [] | l # ls \<Rightarrow> (c # l) # ls))"

text \<open>\<^verbatim>\<open>String(n)\<close> for an integer \<open>n\<close>: decimal digits, with a minus sign below zero.
  \<open>digitChar\<close> is the digit of a value below 16 (decimal and lower-case hexadecimal).\<close>

definition digitChar :: "nat \<Rightarrow> char" where
  "digitChar n = ''0123456789abcdef'' ! n"

fun digits_of_nat :: "nat \<Rightarrow> string" where
  "digits_of_nat n =
     (if n < 10 then [digitChar n]
      else digits_of_nat (n div 10) @ [digitChar (n mod 10)])"

declare digits_of_nat.simps [simp del]

definition String_int :: "int \<Rightarrow> string" where
  "String_int i = (if i < 0 then CHR ''-'' # digits_of_nat (nat (- i)) else digits_of_nat (nat i))"

section \<open>Urgency detection\<close>

text \<open>
  The test \<^verbatim>\<open>/[-*]\s*\[[xX]\].*/.test(trimmed)\<close>. The pattern has no anchor, so the
  test succeeds when the pattern matches at some position of the line.
  \<open>checkedBoxHere\<close> is a match at the first position: a bullet, white space, then the
  three characters of a checked box (the trailing \<^verbatim>\<open>.*\<close> matches the empty string).
\<close>

fun checkedBox :: "string \<Rightarrow> bool" where
  "checkedBox (a # b # c # rest) = (a = CHR ''['' \<and> (b = CHR ''x'' \<or> b = CHR ''X'') \<and> c = CHR '']'')"
| "checkedBox _ = False"

fun checkedBoxHere :: "string \<Rightarrow> bool" where
  "checkedBoxHere [] = False"
| "checkedBoxHere (c # cs) =
     ((c = CHR ''-'' \<or> c = CHR ''*'') \<and> checkedBox (dropWhile isWhiteSpace cs))"

fun checkboxTest :: "string \<Rightarrow> bool" where
  "checkboxTest [] = False"
| "checkboxTest (c # cs) = (checkedBoxHere (c # cs) \<or> checkboxTest cs)"

text \<open>The three flags of the loop, and one iteration of its body.\<close>

record found =
  foundP0 :: bool
  foundP1 :: bool
  foundP2 :: bool

definition scanLine :: "string \<Rightarrow> string \<Rightarrow> string \<Rightarrow> found \<Rightarrow> string \<Rightarrow> found" where
  "scanLine checkboxP0 checkboxP1 checkboxP2 f line =
     (let trimmed = trim line in
      if checkboxTest trimmed then
        (let lowerLine = toLowerCase trimmed;
             lowerP0 = toLowerCase checkboxP0;
             lowerP1 = toLowerCase checkboxP1;
             lowerP2 = toLowerCase checkboxP2 in
         if includes_str lowerLine lowerP0 then f\<lparr>foundP0 := True\<rparr>
         else if includes_str lowerLine lowerP1 then f\<lparr>foundP1 := True\<rparr>
         else if includes_str lowerLine lowerP2 then f\<lparr>foundP2 := True\<rparr>
         else f)
      else f)"

definition detectUrgency :: "string \<Rightarrow> string \<Rightarrow> string \<Rightarrow> string \<Rightarrow> string" where
  "detectUrgency prBody checkboxP0 checkboxP1 checkboxP2 =
     (let f = foldl (scanLine checkboxP0 checkboxP1 checkboxP2)
                \<lparr>foundP0 = False, foundP1 = False, foundP2 = False\<rparr> (split_nl prBody) in
      if foundP0 f then ''p0''
      else if foundP1 f then ''p1''
      else if foundP2 f then ''p2''
      else ''p2'')"

text \<open>A line that passes the checkbox test and whose lower-cased trimmed text contains
  the lower-cased label: the condition under which the loop body sets a flag.\<close>

definition markerFor :: "string \<Rightarrow> string \<Rightarrow> bool" where
  "markerFor label line =
     (checkboxTest (trim line) \<and> includes_str (toLowerCase (trim line)) (toLowerCase label))"

section \<open>JSON values\<close>

text \<open>
  What \<^verbatim>\<open>response.json()\<close> resolves with. An object is the list of its properties
  (each key once); numbers are the integers, which is all a truthiness test and
  \<^verbatim>\<open>JSON.stringify\<close> need here.
\<close>

datatype json =
    JNull
  | JBool bool
  | JNum int
  | JStr string
  | JArr "json list"
  | JObj "(string \<times> json) list"

text \<open>\<^verbatim>\<open>JSON.stringify\<close> (no indentation): string quoting first.\<close>

definition escapeChar :: "char \<Rightarrow> string" where
  "escapeChar c =
     (let n = of_char c :: nat in
      if c = CHR 0x22 then [CHR 0x5C, CHR 0x22]
      else if c = CHR 0x5C then [CHR 0x5C, CHR 0x5C]
      else if n = 8 then [CHR 0x5C, CHR ''b'']
      else if n = 12 then [CHR 0x5C, CHR ''f'']
      else if n = 10 then [CHR 0x5C, CHR ''n'']
      else if n = 13 then [CHR 0x5C, CHR ''r'']
      else if n = 9 then [CHR 0x5C, CHR ''t'']
      else if n < 32 then [CHR 0x5C, CHR ''u'', CHR ''0'', CHR ''0'', digitChar (n div 16), digitChar (n mod 16)]
      else [c])"

definition quoteJSON :: "string \<Rightarrow> string" where
  "quoteJSON s = CHR 0x22 # concat (map escapeChar s) @ [CHR 0x22]"

fun joinComma :: "string list \<Rightarrow> string" where
  "joinComma [] = []"
| "joinComma [x] = x"
| "joinComma (x # y # ys) = x @ CHR '','' # joinComma (y # ys)"

primrec stringify :: "json \<Rightarrow> string" where
  "stringify JNull = ''null''"
| "stringify (JBool b) = (if b then ''true'' else ''false'')"
| "stringify (JNum n) = String_int n"
| "stringify (JStr s) = quoteJSON s"
| "stringify (JArr xs) = CHR ''['' # joinComma (map stringify xs) @ '']''"
| "stringify (JObj kvs) =
     CHR ''{'' # joinComma (map (\<lambda>kv. quoteJSON (fst kv) @ CHR '':'' # snd kv) (map (map_prod id stringify) kvs)) @ ''}''"

text \<open>Truthiness, and reading a property: only an object has own properties here.\<close>

fun truthy :: "json \<Rightarrow> bool" where
  "truthy JNull = False"
| "truthy (JBool b) = b"
| "truthy (JNum n) = (n \<noteq> 0)"
| "truthy (JStr s) = (s \<noteq> [])"
| "truthy (JArr xs) = True"
| "truthy (JObj kvs) = True"

fun getProp :: "json \<Rightarrow> string \<Rightarrow> json option" where
  "getProp (JObj kvs) k = map_of kvs k"
| "getProp _ k = None"

section \<open>Fetching the reviewers\<close>

text \<open>
  The world of \<^verbatim>\<open>fetchReviewers\<close>: an error object has a name and a message; a
  response has a status, a status text and what \<^verbatim>\<open>response.json()\<close> settles with;
  \<^verbatim>\<open>response.ok\<close> is, as the Fetch standard defines it, a status from 200 to 299.
  A call of \<^verbatim>\<open>fetch\<close> rejects with an error or resolves with a response.
\<close>

datatype js_error = JsError (err_name: string) (err_message: string)

record response =
  status :: nat
  statusText :: string
  json_body :: "js_error + json"

definition ok :: "response \<Rightarrow> bool" where
  "ok r = (200 \<le> status r \<and> status r \<le> 299)"

datatype fetch_outcome = Rejected js_error | Resolved response

text \<open>What a run does to the outside, in order: requests, log lines, sleeps.\<close>

datatype event =
    Fetch string string "(string \<times> string) list"
  | Info string
  | Warning string
  | Sleep nat

text \<open>The body of a loop iteration either continues the loop or returns.\<close>

datatype 'a step = Continue | Return 'a

definition maxRetries :: nat where
  "maxRetries = 2"

definition retryDelays :: "nat list" where
  "retryDelays = [250, 750]"

text \<open>Choosing the list: a bare array, or the array under \<^verbatim>\<open>reviewers\<close>. Reading a
  property of \<^verbatim>\<open>null\<close> throws a TypeError (the message is V8's).\<close>

definition reviewerListOf :: "json \<Rightarrow> js_error + json list" where
  "reviewerListOf data =
     (case data of
        JArr xs \<Rightarrow> Inr xs
      | JNull \<Rightarrow> Inl (JsError ''TypeError'' ''Cannot read properties of null (reading 'reviewers')'')
      | _ \<Rightarrow>
          (case getProp data ''reviewers'' of
             Some (JArr xs) \<Rightarrow> Inr xs
           | _ \<Rightarrow> Inl (JsError ''Error'' ''Invalid API response format'')))"

text \<open>The callback of \<^verbatim>\<open>reviewerList.map\<close>, and the map itself, which stops at the
  first entry that throws.\<close>

definition extractUsername :: "json \<Rightarrow> js_error + json" where
  "extractUsername reviewer =
     (case reviewer of
        JStr s \<Rightarrow> Inr (JStr s)
      | _ \<Rightarrow>
          (case (if truthy reviewer then getProp reviewer ''githubUsername'' else None) of
             Some u \<Rightarrow>
               if truthy u then Inr u
               else Inl (JsError ''Error'' (''Invalid reviewer format: '' @ stringify reviewer))
           | None \<Rightarrow> Inl (JsError ''Error'' (''Invalid reviewer format: '' @ stringify reviewer))))"

fun mapReviewers :: "json list \<Rightarrow> js_error + json list" where
  "mapReviewers [] = Inr []"
| "mapReviewers (r # rs) =
     (case extractUsername r of
        Inl e \<Rightarrow> Inl e
      | Inr u \<Rightarrow> (case mapReviewers rs of Inl e \<Rightarrow> Inl e | Inr us \<Rightarrow> Inr (u # us)))"

text \<open>The \<^verbatim>\<open>try\<close> block of one attempt, after \<^verbatim>\<open>fetch\<close> has settled: \<open>Inl\<close> is
  an error thrown inside the block, which the \<^verbatim>\<open>catch\<close> clause receives.\<close>

definition tryBlock ::
  "bool \<Rightarrow> nat \<Rightarrow> fetch_outcome \<Rightarrow> event list \<times> (js_error + json list option step)" where
  "tryBlock failOnApiError attempt outcome =
     (case outcome of
        Rejected e \<Rightarrow> ([], Inl e)
      | Resolved response \<Rightarrow>
          (let st = status response;
               is5xx = (st \<ge> 500)
           in
           if \<not> ok response then
             (if is5xx \<and> attempt < maxRetries then
                (let delay = retryDelays ! attempt in
                 ([Info (''CR Cab API returned '' @ digits_of_nat st @ '', retrying in ''
                         @ digits_of_nat delay @ ''ms (attempt '' @ digits_of_nat (attempt + 1)
                         @ ''/'' @ digits_of_nat maxRetries @ '')''),
                   Sleep delay], Inr Continue))
              else if failOnApiError then
                ([], Inl (JsError ''Error''
                       (''CR Cab API error: '' @ digits_of_nat st @ '' '' @ statusText response)))
              else
                ([Warning (if is5xx
                    then ''CR Cab API unavailable (status='' @ digits_of_nat st
                         @ ''). Skipping comment and continuing.''
                    else ''CR Cab API error (status='' @ digits_of_nat st
                         @ ''). Skipping comment and continuing.'')],
                 Inr (Return None)))
           else
             (case json_body response of
                Inl e \<Rightarrow> ([], Inl e)
              | Inr data \<Rightarrow>
                  (case reviewerListOf data of
                     Inl e \<Rightarrow> ([], Inl e)
                   | Inr reviewerList \<Rightarrow>
                       (case mapReviewers reviewerList of
                          Inl e \<Rightarrow> ([], Inl e)
                        | Inr names \<Rightarrow> ([], Inr (Return (Some names))))))))"

text \<open>The \<^verbatim>\<open>catch\<close> clause: \<open>Inl\<close> of the result is the error thrown out of
  \<^verbatim>\<open>fetchReviewers\<close>.\<close>

definition catchClause ::
  "bool \<Rightarrow> nat \<Rightarrow> js_error \<Rightarrow> event list \<times> (js_error + json list option) step" where
  "catchClause failOnApiError attempt error =
     (if attempt < maxRetries
         \<and> (err_name error = ''TypeError'' \<or> includes_str (err_message error) ''fetch'') then
        (let delay = retryDelays ! attempt in
         ([Info (''Network error, retrying in '' @ digits_of_nat delay @ ''ms (attempt ''
                 @ digits_of_nat (attempt + 1) @ ''/'' @ digits_of_nat maxRetries @ '')''),
           Sleep delay], Continue))
      else if failOnApiError then
        ([], Return (Inl (JsError ''Error'' (''CR Cab API network error: '' @ err_message error))))
      else
        ([Warning ''CR Cab API network error. Skipping comment and continuing.''],
         Return (Inr None)))"

text \<open>One iteration: the request, the \<^verbatim>\<open>try\<close> block, and the \<^verbatim>\<open>catch\<close> clause
  when the block threw.\<close>

definition requestOf :: "string \<Rightarrow> string \<Rightarrow> event" where
  "requestOf apiKey apiUrl =
     Fetch apiUrl ''GET''
       [(''Authorization'', ''Bearer '' @ apiKey), (''Content-Type'', ''application/json'')]"

definition attemptBody ::
  "string \<Rightarrow> string \<Rightarrow> bool \<Rightarrow> nat \<Rightarrow> fetch_outcome
     \<Rightarrow> event list \<times> (js_error + json list option) step" where
  "attemptBody apiKey apiUrl failOnApiError attempt outcome =
     (let request = requestOf apiKey apiUrl
      in
      case tryBlock failOnApiError attempt outcome of
        (evs, Inr Continue) \<Rightarrow> (request # evs, Continue)
      | (evs, Inr (Return v)) \<Rightarrow> (request # evs, Return (Inr v))
      | (evs, Inl error) \<Rightarrow>
          (case catchClause failOnApiError attempt error of
             (evs', s) \<Rightarrow> (request # evs @ evs', s)))"

text \<open>The loop over \<open>attempt\<close>, and the code after it. \<open>net n\<close> is how the \<open>n\<close>-th call
  of \<^verbatim>\<open>fetch\<close> settles; there is one call per attempt.\<close>

function fetchLoop ::
  "string \<Rightarrow> string \<Rightarrow> bool \<Rightarrow> (nat \<Rightarrow> fetch_outcome) \<Rightarrow> nat
     \<Rightarrow> event list \<times> (js_error + json list option)" where
  "fetchLoop apiKey apiUrl failOnApiError net attempt =
     (if attempt \<le> maxRetries then
        (case attemptBody apiKey apiUrl failOnApiError attempt (net attempt) of
           (evs, Continue) \<Rightarrow>
             (case fetchLoop apiKey apiUrl failOnApiError net (attempt + 1) of
                (evs', r) \<Rightarrow> (evs @ evs', r))
         | (evs, Return r) \<Rightarrow> (evs, r))
      else if \<not> failOnApiError then
        ([Warning ''CR Cab API unavailable after retries. Skipping comment and continuing.''],
         Inr None)
      else ([], Inl (JsError ''Error'' ''CR Cab API unavailable after retries'')))"
  by pat_completeness auto
termination
  by (relation "measure (\<lambda>(apiKey, apiUrl, failOnApiError, net, attempt). maxRetries + 1 - attempt)")
     auto

declare fetchLoop.simps [simp del]

definition apiUrlOf :: "string \<Rightarrow> string" where
  "apiUrlOf urgency = ''https://cr-cab.com/api/reviewers/available?severity='' @ urgency"

definition fetchReviewers ::
  "string \<Rightarrow> string \<Rightarrow> bool \<Rightarrow> (nat \<Rightarrow> fetch_outcome) \<Rightarrow> event list \<times> (js_error + json list option)" where
  "fetchReviewers apiKey urgency failOnApiError net =
     fetchLoop apiKey (apiUrlOf urgency) failOnApiError net 0"

text \<open>Projections of a run: the number of requests, the sleeps, and the diagnostics
  (\<^verbatim>\<open>core.info\<close> and \<^verbatim>\<open>core.warning\<close> lines).\<close>

fun isFetch :: "event \<Rightarrow> bool" where
  "isFetch (Fetch url method headers) = True"
| "isFetch _ = False"

definition attempts :: "event list \<Rightarrow> nat" where
  "attempts evs = length (filter isFetch evs)"

fun sleeps :: "event list \<Rightarrow> nat list" where
  "sleeps [] = []"
| "sleeps (Sleep d # evs) = d # sleeps evs"
| "sleeps (e # evs) = sleeps evs"

fun diagnostics :: "event list \<Rightarrow> string list" where
  "diagnostics [] = []"
| "diagnostics (Info m # evs) = m # diagnostics evs"
| "diagnostics (Warning m # evs) = m # diagnostics evs"
| "diagnostics (e # evs) = diagnostics evs"

section \<open>Selecting the reviewer\<close>

text \<open>
  \<^verbatim>\<open>parseInt(seed, 10)\<close>: leading white space is skipped, a sign is read, then the
  longest run of decimal digits; \<open>None\<close> is \<^verbatim>\<open>NaN\<close> (no digit). \<^verbatim>\<open>String\<close> of the
  result is \<^verbatim>\<open>"NaN"\<close> or the decimal digits. Numbers are the exact integers: the
  model is that of JavaScript for seeds below \<open>2^53\<close> in size, where a double holds the
  integer exactly.
\<close>

definition isDigit :: "char \<Rightarrow> bool" where
  "isDigit c = (48 \<le> (of_char c :: nat) \<and> (of_char c :: nat) \<le> 57)"

definition digitsValue :: "string \<Rightarrow> int" where
  "digitsValue ds = foldl (\<lambda>acc c. acc * 10 + (int (of_char c) - 48)) 0 ds"

definition parseInt10 :: "string \<Rightarrow> int option" where
  "parseInt10 s =
     (let t = dropWhile isWhiteSpace s;
          neg = (t \<noteq> [] \<and> hd t = CHR ''-'');
          u = (if t \<noteq> [] \<and> (hd t = CHR ''-'' \<or> hd t = CHR ''+'') then tl t else t);
          z = takeWhile isDigit u
      in if z = [] then None
         else Some (if neg then - digitsValue z else digitsValue z))"

definition String_number :: "int option \<Rightarrow> string" where
  "String_number x = (case x of None \<Rightarrow> ''NaN'' | Some i \<Rightarrow> String_int i)"

text \<open>
  The 32-bit operators. \<^verbatim>\<open>ToInt32\<close> wraps a number into the signed 32-bit range;
  \<^verbatim>\<open>a << n\<close> and \<^verbatim>\<open>a & b\<close> convert their operands with it, and their result is
  again in that range. Subtraction and addition are those of numbers and do not wrap.
\<close>

definition toInt32 :: "int \<Rightarrow> int" where
  "toInt32 x = (x + 2 ^ 31) mod 2 ^ 32 - 2 ^ 31"

definition shiftLeft :: "int \<Rightarrow> nat \<Rightarrow> int" where
  "shiftLeft a n = toInt32 (toInt32 a * 2 ^ (n mod 32))"

definition bitAnd :: "int \<Rightarrow> int \<Rightarrow> int" where
  "bitAnd a b = toInt32 a AND toInt32 b"

text \<open>The body of the hashing loop, for the code unit \<open>c\<close> at the current index.\<close>

definition hashStep :: "int \<Rightarrow> char \<Rightarrow> int" where
  "hashStep hash c =
     (let h = (shiftLeft hash 5 - hash) + int (of_char c)
      in bitAnd h h)"

definition seedHash :: "string \<Rightarrow> int" where
  "seedHash seedStr = foldl hashStep 0 seedStr"

text \<open>The seed is the string the action input holds (empty when not supplied), the
  pull-request number an integer.\<close>

definition selectRandomReviewer :: "'a list \<Rightarrow> string \<Rightarrow> int \<Rightarrow> js_error + 'a" where
  "selectRandomReviewer reviewers seed prNumber =
     (if length reviewers = 0 then Inl (JsError ''Error'' ''No reviewers provided'')
      else if length reviewers = 1 then Inr (reviewers ! 0)
      else
        (let randomSeed = (if seed \<noteq> [] then parseInt10 seed else Some prNumber);
             seedStr = String_number randomSeed;
             hash = seedHash seedStr;
             index = \<bar>hash\<bar> mod int (length reviewers)
         in Inr (reviewers ! nat index)))"



section \<open>The run, from the fetched pool to the selection\<close>

text \<open>The filter of \<^verbatim>\<open>run\<close> that removes the author, on a pool of identity strings.\<close>

definition eligibleReviewers :: "string list \<Rightarrow> string \<Rightarrow> string list" where
  "eligibleReviewers availableReviewers prAuthor =
     filter (\<lambda>reviewer. toLowerCase reviewer \<noteq> toLowerCase prAuthor) availableReviewers"

text \<open>The part of \<^verbatim>\<open>run\<close> between the fetch and the review request: \<open>None\<close> is the
  early return with a warning.\<close>

definition runSelection ::
  "string list option \<Rightarrow> string \<Rightarrow> string \<Rightarrow> string \<Rightarrow> int
     \<Rightarrow> event list \<times> (js_error + string option)" where
  "runSelection availableReviewers urgency prAuthor seed prNumber =
     (case availableReviewers of
        None \<Rightarrow> ([Warning (''No reviewers available for '' @ urgency)], Inr None)
      | Some available \<Rightarrow>
          if length available = 0 then
            ([Warning (''No reviewers available for '' @ urgency)], Inr None)
          else
            (let found = Info (''Found '' @ digits_of_nat (length available)
                               @ '' available reviewers'');
                 eligible = eligibleReviewers available prAuthor
             in
             if length eligible = 0 then
               ([found, Warning ''No eligible reviewers (all are the PR author)''], Inr None)
             else
               (case selectRandomReviewer eligible seed prNumber of
                  Inl e \<Rightarrow> ([found], Inl e)
                | Inr selectedReviewer \<Rightarrow>
                    ([found, Info (''Selected reviewer: @'' @ selectedReviewer)],
                     Inr (Some selectedReviewer)))))"

section \<open>Properties of the urgency detection\<close>

lemma scan_foundP0:
  "foundP0 (foldl (scanLine a b c) f ls) = (foundP0 f \<or> list_ex (markerFor a) ls)"
  by (induction ls arbitrary: f) (auto simp: scanLine_def markerFor_def Let_def)

lemma scan_foundP1:
  "foundP1 (foldl (scanLine a b c) f ls)
     = (foundP1 f \<or> list_ex (\<lambda>l. \<not> markerFor a l \<and> markerFor b l) ls)"
  by (induction ls arbitrary: f) (auto simp: scanLine_def markerFor_def Let_def)

lemma scan_foundP2:
  "foundP2 (foldl (scanLine a b c) f ls)
     = (foundP2 f \<or> list_ex (\<lambda>l. \<not> markerFor a l \<and> \<not> markerFor b l \<and> markerFor c l) ls)"
  by (induction ls arbitrary: f) (auto simp: scanLine_def markerFor_def Let_def)

text \<open>The result in closed form: the highest tier with a marker line, and \<open>p2\<close> when
  there is none.\<close>

lemma detectUrgency_char:
  "detectUrgency body a b c =
     (if list_ex (markerFor a) (split_nl body) then ''p0''
      else if list_ex (markerFor b) (split_nl body) then ''p1''
      else ''p2'')"
  by (auto simp: detectUrgency_def Let_def scan_foundP0 scan_foundP1 scan_foundP2 list_ex_iff)

lemma detectUrgency_no_marker:
  assumes "\<not> list_ex (\<lambda>l. markerFor a l \<or> markerFor b l \<or> markerFor c l) (split_nl body)"
  shows "detectUrgency body a b c = ''p2''"
  using assms by (auto simp: detectUrgency_char list_ex_iff)

text \<open>
  C1. The claim: a description in which no trimmed line both passes the checkbox test and
  contains one of the three labels is classified \<open>p1\<close>. The code returns \<open>p2\<close> there
  (lemma \<open>detectUrgency_no_marker\<close>), as its own comment and the README say, while the
  test \<^verbatim>\<open>returns p1 when no urgency is detected\<close> of the repository expects \<open>p1\<close>
  on the very input evaluated here.
\<close>

theorem detectUrgency_default_is_p2:
  "detectUrgency ''This is a PR with no urgency checkboxes'' ''P0'' ''P1'' ''P2'' = ''p2''"
  by code_simp

text \<open>
  C5. The claim: a line is a candidate marker line exactly when its trimmed text begins
  with a bullet followed by a checked box. The pattern of the code is not anchored, so
  the statement that holds is: a line is a candidate marker line exactly when a bullet
  followed by optional white space and a checked box occurs at some position of its
  trimmed text.
\<close>

theorem checkboxTest_anywhere:
  "checkboxTest t \<longleftrightarrow> (\<exists>pre post. t = pre @ post \<and> checkedBoxHere post)"
proof (induction t)
  case Nil
  then show ?case by simp
next
  case (Cons c cs)
  show ?case
  proof
    assume "checkboxTest (c # cs)"
    then consider "checkedBoxHere (c # cs)" | "checkboxTest cs" by auto
    then show "\<exists>pre post. c # cs = pre @ post \<and> checkedBoxHere post"
    proof cases
      case 1
      then have "c # cs = [] @ (c # cs) \<and> checkedBoxHere (c # cs)" by simp
      then show ?thesis by blast
    next
      case 2
      with Cons.IH obtain pre post where "cs = pre @ post" "checkedBoxHere post" by blast
      then have "c # cs = (c # pre) @ post \<and> checkedBoxHere post" by simp
      then show ?thesis by blast
    qed
  next
    assume "\<exists>pre post. c # cs = pre @ post \<and> checkedBoxHere post"
    then obtain pre post where eq: "c # cs = pre @ post" and h: "checkedBoxHere post" by blast
    show "checkboxTest (c # cs)"
    proof (cases pre)
      case Nil
      with eq have "post = c # cs" by simp
      with h have "checkedBoxHere (c # cs)" by simp
      then show ?thesis by simp
    next
      case (Cons p ps)
      with eq have "cs = ps @ post" by simp
      with h Cons.IH have "checkboxTest cs" by blast
      then show ?thesis by simp
    qed
  qed
qed

text \<open>The line \<^verbatim>\<open>see - [x] P0\<close> does not begin with a bullet, passes the test all the
  same, and decides the tier.\<close>

theorem marker_mid_line:
  "checkboxTest (trim ''see - [x] P0'') \<and> \<not> checkedBoxHere (trim ''see - [x] P0'')
   \<and> detectUrgency ''see - [x] P0'' ''P0'' ''P1'' ''P2'' = ''p0''"
  by code_simp

section \<open>Properties of the fetch\<close>

subsection \<open>Decimal digits and substrings\<close>

lemma digits_small [simp]:
  "digits_of_nat 1 = ''1''" "digits_of_nat 2 = ''2''" "digits_of_nat 3 = ''3''"
  "digits_of_nat 250 = ''250''" "digits_of_nat 750 = ''750''"
  by (simp_all add: digits_of_nat.simps digitChar_def)

lemma digits_Suc [simp]:
  "digits_of_nat (Suc 0) = ''1''" "digits_of_nat (Suc (Suc 0)) = ''2''"
  using digits_small(1,2) by (simp_all only: One_nat_def numeral_2_eq_2)

lemma digitChar_decimal:
  assumes "n < 10"
  shows "digitChar n \<in> set ''0123456789''"
proof -
  from assms have len: "n < length ''0123456789''" by simp
  have "digitChar n = (''0123456789'' @ ''abcdef'') ! n"
    by (simp add: digitChar_def)
  also from len have "\<dots> = ''0123456789'' ! n"
    by (rule nth_append_left)
  finally show ?thesis
    using nth_mem [OF len] by simp
qed

lemma digits_of_nat_set: "set (digits_of_nat n) \<subseteq> set ''0123456789''"
proof (induction n rule: digits_of_nat.induct)
  case (1 n)
  show ?case
  proof (cases "n < 10")
    case True
    then show ?thesis
      using digitChar_decimal [of n] by (subst digits_of_nat.simps) simp
  next
    case False
    have "n mod 10 < 10" by simp
    then have "digitChar (n mod 10) \<in> set ''0123456789''" by (rule digitChar_decimal)
    with False "1.IH" show ?thesis
      by (subst digits_of_nat.simps) simp
  qed
qed

lemma startsWith_set: "startsWith s p \<Longrightarrow> set p \<subseteq> set s"
  unfolding startsWith_def by (metis set_take_subset)

lemma includes_str_set: "includes_str s p \<Longrightarrow> set p \<subseteq> set s"
proof (induction s)
  case Nil
  then show ?case by simp
next
  case (Cons a s)
  from Cons.prems consider "startsWith (a # s) p" | "includes_str s p" by auto
  then show ?case
  proof cases
    case 1
    then show ?thesis by (rule startsWith_set)
  next
    case 2
    with Cons.IH have "set p \<subseteq> set s" by blast
    then show ?thesis by auto
  qed
qed

lemma includes_str_skip:
  "c \<notin> set pre \<Longrightarrow> includes_str (pre @ s) (c # p) = includes_str s (c # p)"
  by (induction pre) (auto simp: startsWith_def)

lemma noB_digits [simp]: "CHR ''B'' \<notin> set (digits_of_nat n)"
  using digits_of_nat_set [of n] by auto

lemma nof_digits [simp]: "CHR ''f'' \<notin> set (digits_of_nat n)"
  using digits_of_nat_set [of n] by auto

lemma api_error_message_fetch:
  "includes_str (''CR Cab API error: '' @ digits_of_nat n @ '' '' @ phrase) ''fetch''
     = includes_str phrase ''fetch''"
proof -
  have nf: "CHR ''f'' \<notin> set (''CR Cab API error: '' @ digits_of_nat n @ '' '')" by simp
  show ?thesis using includes_str_skip [OF nf, of phrase "''etch''"] by simp
qed

subsection \<open>One attempt, and the loop around it\<close>

lemma attemptBody_5xx_retry:
  assumes "status r \<ge> 500" "attempt < maxRetries"
  shows "attemptBody apiKey apiUrl f attempt (Resolved r) =
     ([requestOf apiKey apiUrl,
       Info (''CR Cab API returned '' @ digits_of_nat (status r) @ '', retrying in ''
             @ digits_of_nat (retryDelays ! attempt) @ ''ms (attempt '' @ digits_of_nat (attempt + 1)
             @ ''/'' @ digits_of_nat maxRetries @ '')''),
       Sleep (retryDelays ! attempt)], Continue)"
  using assms by (simp add: attemptBody_def tryBlock_def ok_def Let_def)

lemma attemptBody_5xx_last:
  assumes "status r \<ge> 500" "\<not> attempt < maxRetries"
  shows "attemptBody apiKey apiUrl f attempt (Resolved r) =
     (if f then
        ([requestOf apiKey apiUrl],
         Return (Inl (JsError ''Error'' (''CR Cab API network error: CR Cab API error: ''
            @ digits_of_nat (status r) @ '' '' @ statusText r))))
      else
        ([requestOf apiKey apiUrl,
          Warning (''CR Cab API unavailable (status='' @ digits_of_nat (status r)
                   @ ''). Skipping comment and continuing.'')],
         Return (Inr None)))"
  using assms by (simp add: attemptBody_def tryBlock_def catchClause_def ok_def Let_def)

lemma fetchLoop_continue:
  assumes "attempt \<le> maxRetries" "attemptBody apiKey apiUrl f attempt (net attempt) = (evs, Continue)"
  shows "fetchLoop apiKey apiUrl f net attempt =
     (evs @ fst (fetchLoop apiKey apiUrl f net (attempt + 1)),
      snd (fetchLoop apiKey apiUrl f net (attempt + 1)))"
  using assms by (subst fetchLoop.simps) (simp split: prod.splits)

lemma fetchLoop_return:
  assumes "attempt \<le> maxRetries" "attemptBody apiKey apiUrl f attempt (net attempt) = (evs, Return r)"
  shows "fetchLoop apiKey apiUrl f net attempt = (evs, r)"
  using assms by (subst fetchLoop.simps) simp

lemma diagnostics_append: "diagnostics (xs @ ys) = diagnostics xs @ diagnostics ys"
  by (induction xs rule: diagnostics.induct) simp_all

text \<open>
  C3. When each of the first three attempts resolves with a status of 500 or more, the
  run makes exactly three requests, sleeping 250ms after the first and 750ms after the
  second. With \<open>failOnApiError\<close> false it ends with a warning and returns
  \<^verbatim>\<open>null\<close>; with \<open>failOnApiError\<close> true it throws an error whose message
  names the status (and the status text) of the third response.
\<close>

theorem fetchReviewers_three_5xx:
  assumes n0: "net 0 = Resolved r0" and n1: "net 1 = Resolved r1" and n2: "net 2 = Resolved r2"
    and s0: "status r0 \<ge> 500" and s1: "status r1 \<ge> 500" and s2: "status r2 \<ge> 500"
  shows "fetchReviewers apiKey urgency failOnApiError net =
     ([requestOf apiKey (apiUrlOf urgency),
       Info (''CR Cab API returned '' @ digits_of_nat (status r0)
             @ '', retrying in 250ms (attempt 1/2)''),
       Sleep 250,
       requestOf apiKey (apiUrlOf urgency),
       Info (''CR Cab API returned '' @ digits_of_nat (status r1)
             @ '', retrying in 750ms (attempt 2/2)''),
       Sleep 750,
       requestOf apiKey (apiUrlOf urgency)]
       @ (if failOnApiError then []
          else [Warning (''CR Cab API unavailable (status='' @ digits_of_nat (status r2)
                         @ ''). Skipping comment and continuing.'')]),
      if failOnApiError
      then Inl (JsError ''Error'' (''CR Cab API network error: CR Cab API error: ''
                  @ digits_of_nat (status r2) @ '' '' @ statusText r2))
      else Inr None)
   \<and> attempts (fst (fetchReviewers apiKey urgency failOnApiError net)) = 3
   \<and> sleeps (fst (fetchReviewers apiKey urgency failOnApiError net)) = [250, 750]"
proof -
  let ?url = "apiUrlOf urgency"
  from n1 have n1': "net (Suc 0) = Resolved r1" by simp
  have a2: "fetchLoop apiKey ?url failOnApiError net 2 =
     (if failOnApiError then
        ([requestOf apiKey ?url],
         Inl (JsError ''Error'' (''CR Cab API network error: CR Cab API error: ''
            @ digits_of_nat (status r2) @ '' '' @ statusText r2)))
      else
        ([requestOf apiKey ?url,
          Warning (''CR Cab API unavailable (status='' @ digits_of_nat (status r2)
                   @ ''). Skipping comment and continuing.'')],
         Inr None))"
    using attemptBody_5xx_last [OF s2, of 2 apiKey ?url failOnApiError]
    by (cases failOnApiError) (simp_all add: fetchLoop_return n2 maxRetries_def)
  have b1: "attemptBody apiKey ?url failOnApiError 1 (net 1) =
     ([requestOf apiKey ?url,
       Info (''CR Cab API returned '' @ digits_of_nat (status r1)
             @ '', retrying in 750ms (attempt 2/2)''),
       Sleep 750], Continue)"
    using attemptBody_5xx_retry [OF s1, of 1 apiKey ?url failOnApiError]
    by (simp add: n1' maxRetries_def retryDelays_def)
  have b0: "attemptBody apiKey ?url failOnApiError 0 (net 0) =
     ([requestOf apiKey ?url,
       Info (''CR Cab API returned '' @ digits_of_nat (status r0)
             @ '', retrying in 250ms (attempt 1/2)''),
       Sleep 250], Continue)"
    using attemptBody_5xx_retry [OF s0, of 0 apiKey ?url failOnApiError]
    by (simp add: n0 maxRetries_def retryDelays_def)
  have a1: "fetchLoop apiKey ?url failOnApiError net 1 =
     ([requestOf apiKey ?url,
       Info (''CR Cab API returned '' @ digits_of_nat (status r1)
             @ '', retrying in 750ms (attempt 2/2)''),
       Sleep 750] @ fst (fetchLoop apiKey ?url failOnApiError net 2),
      snd (fetchLoop apiKey ?url failOnApiError net 2))"
    using fetchLoop_continue [of 1 apiKey ?url failOnApiError net, OF _ b1]
    by (simp add: maxRetries_def numeral_2_eq_2)
  have a0: "fetchLoop apiKey ?url failOnApiError net 0 =
     ([requestOf apiKey ?url,
       Info (''CR Cab API returned '' @ digits_of_nat (status r0)
             @ '', retrying in 250ms (attempt 1/2)''),
       Sleep 250] @ fst (fetchLoop apiKey ?url failOnApiError net 1),
      snd (fetchLoop apiKey ?url failOnApiError net 1))"
    using fetchLoop_continue [of 0 apiKey ?url failOnApiError net, OF _ b0]
    by (simp add: maxRetries_def)
  have main: "fetchReviewers apiKey urgency failOnApiError net =
     ([requestOf apiKey ?url,
       Info (''CR Cab API returned '' @ digits_of_nat (status r0)
             @ '', retrying in 250ms (attempt 1/2)''),
       Sleep 250,
       requestOf apiKey ?url,
       Info (''CR Cab API returned '' @ digits_of_nat (status r1)
             @ '', retrying in 750ms (attempt 2/2)''),
       Sleep 750,
       requestOf apiKey ?url]
       @ (if failOnApiError then []
          else [Warning (''CR Cab API unavailable (status='' @ digits_of_nat (status r2)
                         @ ''). Skipping comment and continuing.'')]),
      if failOnApiError
      then Inl (JsError ''Error'' (''CR Cab API network error: CR Cab API error: ''
                  @ digits_of_nat (status r2) @ '' '' @ statusText r2))
      else Inr None)"
    unfolding fetchReviewers_def a0 a1 a2 by simp
  have att: "attempts (fst (fetchReviewers apiKey urgency failOnApiError net)) = 3"
    unfolding main by (simp add: attempts_def requestOf_def)
  have sl: "sleeps (fst (fetchReviewers apiKey urgency failOnApiError net)) = [250, 750]"
    unfolding main by (simp add: requestOf_def)
  from main att sl show ?thesis by blast
qed

text \<open>Three responses \<^verbatim>\<open>500 Internal Server Error\<close> in strict mode.\<close>

theorem fetchReviewers_three_5xx_witness:
  "fetchReviewers ''test-api-key'' ''p2'' True
     (\<lambda>n. Resolved \<lparr>status = 500, statusText = ''Internal Server Error'', json_body = Inr (JObj [])\<rparr>)
   = ([requestOf ''test-api-key'' (apiUrlOf ''p2''),
       Info ''CR Cab API returned 500, retrying in 250ms (attempt 1/2)'',
       Sleep 250,
       requestOf ''test-api-key'' (apiUrlOf ''p2''),
       Info ''CR Cab API returned 500, retrying in 750ms (attempt 2/2)'',
       Sleep 750,
       requestOf ''test-api-key'' (apiUrlOf ''p2'')],
      Inl (JsError ''Error'' ''CR Cab API network error: CR Cab API error: 500 Internal Server Error''))
   \<and> attempts (fst (fetchReviewers ''test-api-key'' ''p2'' True
     (\<lambda>n. Resolved \<lparr>status = 500, statusText = ''Internal Server Error'', json_body = Inr (JObj [])\<rparr>))) = 3"
  using fetchReviewers_three_5xx [of
      "\<lambda>n. Resolved \<lparr>status = 500, statusText = ''Internal Server Error'', json_body = Inr (JObj [])\<rparr>"
      "\<lparr>status = 500, statusText = ''Internal Server Error'', json_body = Inr (JObj [])\<rparr>"
      "\<lparr>status = 500, statusText = ''Internal Server Error'', json_body = Inr (JObj [])\<rparr>"
      "\<lparr>status = 500, statusText = ''Internal Server Error'', json_body = Inr (JObj [])\<rparr>"
      "''test-api-key''" "''p2''" True]
  by (simp add: digits_of_nat.simps digitChar_def attempts_def requestOf_def)

subsection \<open>Client errors\<close>

text \<open>A first response with a status from 400 to 499 ends the run after one request,
  unless the mode is strict and the status text contains \<^verbatim>\<open>fetch\<close>.\<close>

lemma fetchReviewers_4xx:
  assumes n0: "net 0 = Resolved r" and lo: "400 \<le> status r" and hi: "status r < 500"
    and nf: "\<not> (failOnApiError \<and> includes_str (statusText r) ''fetch'')"
  shows "fetchReviewers apiKey urgency failOnApiError net =
     (if failOnApiError then
        ([requestOf apiKey (apiUrlOf urgency)],
         Inl (JsError ''Error'' (''CR Cab API network error: CR Cab API error: ''
            @ digits_of_nat (status r) @ '' '' @ statusText r)))
      else
        ([requestOf apiKey (apiUrlOf urgency),
          Warning (''CR Cab API error (status='' @ digits_of_nat (status r)
                   @ ''). Skipping comment and continuing.'')],
         Inr None))"
proof -
  have "attemptBody apiKey (apiUrlOf urgency) failOnApiError 0 (Resolved r) =
     (if failOnApiError then
        ([requestOf apiKey (apiUrlOf urgency)],
         Return (Inl (JsError ''Error'' (''CR Cab API network error: CR Cab API error: ''
            @ digits_of_nat (status r) @ '' '' @ statusText r))))
      else
        ([requestOf apiKey (apiUrlOf urgency),
          Warning (''CR Cab API error (status='' @ digits_of_nat (status r)
                   @ ''). Skipping comment and continuing.'')],
         Return (Inr None)))"
    using lo hi nf api_error_message_fetch [of "status r" "statusText r"]
    by (simp add: attemptBody_def tryBlock_def catchClause_def ok_def Let_def)
  then show ?thesis
    unfolding fetchReviewers_def
    by (cases failOnApiError) (simp_all add: fetchLoop_return n0 maxRetries_def)
qed

text \<open>
  C4. The claim: a first response with a status in [400, 500) is never retried, for
  both values of \<open>failOnApiError\<close>. In strict mode the error for the status is thrown
  inside the \<^verbatim>\<open>try\<close> block, so the \<^verbatim>\<open>catch\<close> clause written for network
  errors receives it, and its test \<^verbatim>\<open>error.message.includes('fetch')\<close> reads the
  status text of the response: a 404 whose status text is \<^verbatim>\<open>fetch failed\<close> is
  logged as a network error and retried, and the run below makes two requests and
  returns the reviewers of the second response instead of throwing.
\<close>

theorem fetchReviewers_404_retried:
  "fetchReviewers ''test-api-key'' ''p2'' True
     (\<lambda>n. if n = 0
           then Resolved \<lparr>status = 404, statusText = ''fetch failed'', json_body = Inr (JObj [])\<rparr>
           else Resolved \<lparr>status = 200, statusText = ''OK'',
                           json_body = Inr (JArr [JStr ''reviewer1''])\<rparr>)
   = ([requestOf ''test-api-key'' (apiUrlOf ''p2''),
       Info ''Network error, retrying in 250ms (attempt 1/2)'',
       Sleep 250,
       requestOf ''test-api-key'' (apiUrlOf ''p2'')],
      Inr (Some [JStr ''reviewer1'']))"
  by code_simp

subsection \<open>Malformed responses\<close>

text \<open>A success response whose body has neither accepted shape (and is not
  \<^verbatim>\<open>null\<close>): the format error is caught with the network errors.\<close>

lemma fetchReviewers_bad_shape:
  assumes n0: "net 0 = Resolved r" and okr: "ok r" and body: "json_body r = Inr data"
    and bad: "reviewerListOf data = Inl (JsError ''Error'' ''Invalid API response format'')"
  shows "fetchReviewers apiKey urgency failOnApiError net =
     (if failOnApiError then
        ([requestOf apiKey (apiUrlOf urgency)],
         Inl (JsError ''Error'' ''CR Cab API network error: Invalid API response format''))
      else
        ([requestOf apiKey (apiUrlOf urgency),
          Warning ''CR Cab API network error. Skipping comment and continuing.''],
         Inr None))"
proof -
  have nf: "\<not> includes_str ''Invalid API response format'' ''fetch''"
    by (simp add: startsWith_def)
  have "attemptBody apiKey (apiUrlOf urgency) failOnApiError 0 (Resolved r) =
     (if failOnApiError then
        ([requestOf apiKey (apiUrlOf urgency)],
         Return (Inl (JsError ''Error'' ''CR Cab API network error: Invalid API response format'')))
      else
        ([requestOf apiKey (apiUrlOf urgency),
          Warning ''CR Cab API network error. Skipping comment and continuing.''],
         Return (Inr None)))"
    using okr body bad nf
    by (simp add: attemptBody_def tryBlock_def catchClause_def Let_def)
  then show ?thesis
    unfolding fetchReviewers_def
    by (cases failOnApiError) (simp_all add: fetchLoop_return n0 maxRetries_def)
qed

text \<open>
  C2. The claim: a success response with a malformed body, or with a malformed entry,
  makes \<^verbatim>\<open>fetchReviewers\<close> throw a format error whatever \<open>failOnApiError\<close> is.
  Both \<^verbatim>\<open>throw\<close> statements stand inside the \<^verbatim>\<open>try\<close> block, so the
  \<^verbatim>\<open>catch\<close> clause receives the error: with \<open>failOnApiError\<close> false the run
  logs a network-error warning and returns \<^verbatim>\<open>null\<close>, here for the body
  \<^verbatim>\<open>{}\<close> and for the body \<^verbatim>\<open>['alice', 42]\<close>.
\<close>

theorem fetchReviewers_format_error_swallowed:
  "fetchReviewers ''test-api-key'' ''p2'' False
     (\<lambda>n. Resolved \<lparr>status = 200, statusText = ''OK'', json_body = Inr (JObj [])\<rparr>)
   = ([requestOf ''test-api-key'' (apiUrlOf ''p2''),
       Warning ''CR Cab API network error. Skipping comment and continuing.''],
      Inr None)
   \<and> fetchReviewers ''test-api-key'' ''p2'' False
     (\<lambda>n. Resolved \<lparr>status = 200, statusText = ''OK'',
                      json_body = Inr (JArr [JStr ''alice'', JNum 42])\<rparr>)
   = ([requestOf ''test-api-key'' (apiUrlOf ''p2''),
       Warning ''CR Cab API network error. Skipping comment and continuing.''],
      Inr None)"
  by code_simp

subsection \<open>The diagnostics and the API key\<close>

lemma attemptBody_key:
  "snd (attemptBody k url f a out) = snd (attemptBody k' url f a out)
   \<and> diagnostics (fst (attemptBody k url f a out)) = diagnostics (fst (attemptBody k' url f a out))"
  by (simp add: attemptBody_def requestOf_def Let_def split: prod.splits sum.splits step.splits)

lemma fetchLoop_key:
  "snd (fetchLoop k url f net a) = snd (fetchLoop k' url f net a)
   \<and> diagnostics (fst (fetchLoop k url f net a)) = diagnostics (fst (fetchLoop k' url f net a))"
proof (induction k url f net a rule: fetchLoop.induct)
  case (1 k url f net a)
  show ?case
  proof (cases "a \<le> maxRetries")
    case False
    then show ?thesis by (simp add: fetchLoop.simps)
  next
    case True
    obtain evs s where b: "attemptBody k url f a (net a) = (evs, s)" by (cases "attemptBody k url f a (net a)")
    obtain evs' s' where b': "attemptBody k' url f a (net a) = (evs', s')" by (cases "attemptBody k' url f a (net a)")
    from attemptBody_key [of k url f a "net a" k'] b b'
    have same: "s = s'" "diagnostics evs = diagnostics evs'" by simp_all
    show ?thesis
    proof (cases s)
      case Continue
      with "1.IH" True b have ih:
        "snd (fetchLoop k url f net (a + 1)) = snd (fetchLoop k' url f net (a + 1))
         \<and> diagnostics (fst (fetchLoop k url f net (a + 1))) = diagnostics (fst (fetchLoop k' url f net (a + 1)))"
        by simp
      from Continue same b b' True
      have "fetchLoop k url f net a = (evs @ fst (fetchLoop k url f net (a + 1)), snd (fetchLoop k url f net (a + 1)))"
           "fetchLoop k' url f net a = (evs' @ fst (fetchLoop k' url f net (a + 1)), snd (fetchLoop k' url f net (a + 1)))"
        by (simp_all add: fetchLoop_continue)
      with ih same show ?thesis by (simp add: diagnostics_append)
    next
      case (Return r)
      with same b b' True
      have "fetchLoop k url f net a = (evs, r)" "fetchLoop k' url f net a = (evs', r)"
        by (simp_all add: fetchLoop_return)
      with same show ?thesis by simp
    qed
  qed
qed

lemma tryBlock_noB:
  "m \<in> set (diagnostics (fst (tryBlock f a out))) \<Longrightarrow> CHR ''B'' \<notin> set m"
  by (auto simp: tryBlock_def Let_def split: fetch_outcome.splits sum.splits if_splits)

lemma catchClause_noB:
  "m \<in> set (diagnostics (fst (catchClause f a e))) \<Longrightarrow> CHR ''B'' \<notin> set m"
  by (auto simp: catchClause_def Let_def split: if_splits)

lemma attemptBody_noB:
  assumes "m \<in> set (diagnostics (fst (attemptBody k url f a out)))"
  shows "CHR ''B'' \<notin> set m"
proof -
  obtain evs t where t: "tryBlock f a out = (evs, t)" by (cases "tryBlock f a out")
  have e: "m \<in> set (diagnostics evs) \<Longrightarrow> CHR ''B'' \<notin> set m"
    using tryBlock_noB [of m f a out] t by simp
  show ?thesis
  proof (cases t)
    case (Inl err)
    obtain evs' s where c: "catchClause f a err = (evs', s)" by (cases "catchClause f a err")
    have e': "m \<in> set (diagnostics evs') \<Longrightarrow> CHR ''B'' \<notin> set m"
      using catchClause_noB [of m f a err] c by simp
    from assms t Inl c have "m \<in> set (diagnostics evs) \<or> m \<in> set (diagnostics evs')"
      by (simp add: attemptBody_def requestOf_def Let_def diagnostics_append)
    with e e' show ?thesis by blast
  next
    case (Inr st)
    with assms t have "m \<in> set (diagnostics evs)"
      by (cases st) (simp_all add: attemptBody_def requestOf_def Let_def)
    with e show ?thesis by blast
  qed
qed

lemma fetchLoop_noB:
  "m \<in> set (diagnostics (fst (fetchLoop k url f net a))) \<Longrightarrow> CHR ''B'' \<notin> set m"
proof (induction k url f net a rule: fetchLoop.induct)
  case (1 k url f net a)
  show ?case
  proof (cases "a \<le> maxRetries")
    case False
    with "1.prems" show ?thesis
      by (auto simp: fetchLoop.simps split: if_splits)
  next
    case True
    obtain evs s where b: "attemptBody k url f a (net a) = (evs, s)"
      by (cases "attemptBody k url f a (net a)")
    have e: "m \<in> set (diagnostics evs) \<Longrightarrow> CHR ''B'' \<notin> set m"
      using attemptBody_noB [of m k url f a "net a"] b by simp
    show ?thesis
    proof (cases s)
      case Continue
      with b True have "fetchLoop k url f net a
          = (evs @ fst (fetchLoop k url f net (a + 1)), snd (fetchLoop k url f net (a + 1)))"
        by (simp add: fetchLoop_continue)
      with "1.prems" have "m \<in> set (diagnostics evs)
          \<or> m \<in> set (diagnostics (fst (fetchLoop k url f net (a + 1))))"
        by (simp add: diagnostics_append)
      with e "1.IH" [OF True b [symmetric]] Continue show ?thesis by blast
    next
      case (Return r)
      with b True have "fetchLoop k url f net a = (evs, r)" by (simp add: fetchLoop_return)
      with "1.prems" e show ?thesis by simp
    qed
  qed
qed

text \<open>
  C6. The claim: no diagnostic of \<^verbatim>\<open>fetchReviewers\<close> contains the API key or the
  word \<^verbatim>\<open>Bearer\<close>; equivalently, the diagnostics are the same in two runs that
  differ only in the API key. What holds: the diagnostics (and the result) do not depend
  on the API key, and no diagnostic contains \<^verbatim>\<open>Bearer\<close>. The two readings are
  not equivalent: a key that happens to be a piece of the fixed wording is contained in
  a diagnostic.
\<close>

theorem fetchReviewers_diagnostics_key_free:
  "diagnostics (fst (fetchReviewers apiKey urgency failOnApiError net))
     = diagnostics (fst (fetchReviewers apiKey' urgency failOnApiError net))
   \<and> snd (fetchReviewers apiKey urgency failOnApiError net)
     = snd (fetchReviewers apiKey' urgency failOnApiError net)
   \<and> \<not> list_ex (\<lambda>m. includes_str m ''Bearer'')
         (diagnostics (fst (fetchReviewers apiKey urgency failOnApiError net)))"
proof -
  have "\<not> includes_str m ''Bearer''"
    if "m \<in> set (diagnostics (fst (fetchReviewers apiKey urgency failOnApiError net)))" for m
  proof
    assume "includes_str m ''Bearer''"
    then have "set ''Bearer'' \<subseteq> set m" by (rule includes_str_set)
    then have "CHR ''B'' \<in> set m" by simp
    with that show False
      unfolding fetchReviewers_def using fetchLoop_noB by blast
  qed
  then have "\<not> list_ex (\<lambda>m. includes_str m ''Bearer'')
         (diagnostics (fst (fetchReviewers apiKey urgency failOnApiError net)))"
    by (auto simp: list_ex_iff)
  with fetchLoop_key [of apiKey "apiUrlOf urgency" failOnApiError net 0 apiKey']
  show ?thesis by (simp add: fetchReviewers_def)
qed

text \<open>With the key \<^verbatim>\<open>API\<close>, the warning for a 404 contains the key.\<close>

theorem diagnostic_contains_key_text:
  "list_ex (\<lambda>m. includes_str m ''API'')
     (diagnostics (fst (fetchReviewers ''API'' ''p2'' False
        (\<lambda>n. Resolved \<lparr>status = 404, statusText = ''Not Found'', json_body = Inr (JObj [])\<rparr>))))"
  by code_simp

section \<open>Properties of the selection\<close>





lemma select_many:
  assumes "2 \<le> length reviewers"
  shows "selectRandomReviewer reviewers seed prNumber =
     Inr (reviewers ! nat (\<bar>seedHash (String_number (if seed \<noteq> [] then parseInt10 seed else Some prNumber))\<bar>
                          mod int (length reviewers)))"
  using assms by (auto simp: selectRandomReviewer_def Let_def)

lemma index_in_range:
  assumes "0 < n"
  shows "nat (\<bar>h\<bar> mod int n) < n"
  using assms by (simp add: nat_less_iff)

lemma select_nonempty:
  assumes "reviewers \<noteq> []"
  shows "\<exists>r. selectRandomReviewer reviewers seed prNumber = Inr r \<and> r \<in> set reviewers"
proof (cases "length reviewers = 1")
  case True
  then obtain y where "reviewers = [y]" by (cases reviewers) auto
  then show ?thesis by (simp add: selectRandomReviewer_def)
next
  case False
  from assms have "length reviewers \<noteq> 0" by simp
  with False have two: "2 \<le> length reviewers" by arith
  let ?i = "nat (\<bar>seedHash (String_number (if seed \<noteq> [] then parseInt10 seed else Some prNumber))\<bar>
                 mod int (length reviewers))"
  from assms have "0 < length reviewers" by simp
  then have "?i < length reviewers" by (rule index_in_range)
  then have "reviewers ! ?i \<in> set reviewers" by (rule nth_mem)
  with select_many [OF two] show ?thesis by simp
qed





lemma seedHash_NaN: "seedHash ''NaN'' = 78043"
  by (simp add: seedHash_def hashStep_def shiftLeft_def bitAnd_def toInt32_def)

lemma parseInt10_text: "parseInt10 ''my-stable-seed'' = None"
  by (simp add: parseInt10_def Let_def isWhiteSpace_def isDigit_def)



text \<open>
  C8. \<^verbatim>\<open>selectRandomReviewer\<close> throws exactly when the list is empty; on a
  non-empty list it returns one identity, an element of the list; on a list of one entry
  it returns that entry, whatever the seed and the pull-request number.
\<close>

theorem selectRandomReviewer_total:
  "((\<exists>e. selectRandomReviewer reviewers seed prNumber = Inl e) \<longleftrightarrow> reviewers = [])
   \<and> (reviewers \<noteq> [] \<longrightarrow>
        (\<exists>r. selectRandomReviewer reviewers seed prNumber = Inr r \<and> r \<in> set reviewers))
   \<and> selectRandomReviewer [x] seed prNumber = Inr x"
proof -
  have one: "selectRandomReviewer [x] seed prNumber = Inr x"
    by (simp add: selectRandomReviewer_def)
  have empty: "selectRandomReviewer reviewers seed prNumber
      = Inl (JsError ''Error'' ''No reviewers provided'')" if "reviewers = []"
    using that by (simp add: selectRandomReviewer_def)
  have ne: "\<exists>r. selectRandomReviewer reviewers seed prNumber = Inr r \<and> r \<in> set reviewers"
    if "reviewers \<noteq> []"
    using that by (rule select_nonempty)
  have "(\<exists>e. selectRandomReviewer reviewers seed prNumber = Inl e) \<longleftrightarrow> reviewers = []"
  proof
    assume "\<exists>e. selectRandomReviewer reviewers seed prNumber = Inl e"
    with ne show "reviewers = []" by (cases "reviewers = []") auto
  next
    assume "reviewers = []"
    with empty show "\<exists>e. selectRandomReviewer reviewers seed prNumber = Inl e" by simp
  qed
  with ne one show ?thesis by blast
qed

theorem selectRandomReviewer_total_witness:
  "(\<exists>e. selectRandomReviewer ([] :: string list) ''7'' 42 = Inl e)
   \<and> (\<exists>r. selectRandomReviewer [''a'', ''b'', ''c''] ''7'' 42 = Inr r \<and> r \<in> set [''a'', ''b'', ''c''])
   \<and> selectRandomReviewer [''solo''] ''7'' 42 = Inr ''solo''"
  using selectRandomReviewer_total [of "[] :: string list" "''7''" 42 "''solo''"]
        selectRandomReviewer_total [of "[''a'', ''b'', ''c'']" "''7''" 42 "''solo''"]
  by auto

text \<open>
  C9. For a list of at least two candidates and an explicit seed that is not empty and
  that \<^verbatim>\<open>parseInt\<close> reads as \<^verbatim>\<open>NaN\<close>, the string hashed is \<^verbatim>\<open>NaN\<close>,
  whose hash is 78043: the choice is the element at index \<open>78043 mod length\<close>, the same
  for all such seeds and all pull-request numbers.
\<close>

theorem selectRandomReviewer_NaN_seed:
  assumes "2 \<le> length reviewers" and "seed \<noteq> []" and "parseInt10 seed = None"
  shows "selectRandomReviewer reviewers seed prNumber = Inr (reviewers ! (78043 mod length reviewers))"
proof -
  have "nat (\<bar>78043\<bar> mod int (length reviewers)) = 78043 mod length reviewers"
    by (simp add: nat_mod_distrib)
  with select_many [OF assms(1), of seed prNumber] assms(2,3) show ?thesis
    by (simp add: String_number_def seedHash_NaN)
qed

theorem selectRandomReviewer_NaN_seed_witness:
  "2 \<le> length [''a'', ''b'', ''c''] \<and> ''my-stable-seed'' \<noteq> [] \<and> parseInt10 ''my-stable-seed'' = None
   \<and> selectRandomReviewer [''a'', ''b'', ''c''] ''my-stable-seed'' 42 = Inr ''b''
   \<and> selectRandomReviewer [''a'', ''b'', ''c''] ''my-stable-seed'' 7 = Inr ''b''"
  using selectRandomReviewer_NaN_seed [of "[''a'', ''b'', ''c'']" "''my-stable-seed''" 42]
        selectRandomReviewer_NaN_seed [of "[''a'', ''b'', ''c'']" "''my-stable-seed''" 7]
  by (simp add: parseInt10_text)

section \<open>Properties of the author exclusion\<close>

lemma eligible_mem:
  "r \<in> set (eligibleReviewers pool prAuthor)
     \<longleftrightarrow> r \<in> set pool \<and> toLowerCase r \<noteq> toLowerCase prAuthor"
  by (simp add: eligibleReviewers_def)

lemma runSelection_selects:
  assumes "eligibleReviewers pool prAuthor \<noteq> []"
  shows "snd (runSelection (Some pool) urgency prAuthor seed prNumber)
     = map_sum id Some (selectRandomReviewer (eligibleReviewers pool prAuthor) seed prNumber)"
proof -
  from assms have "pool \<noteq> []" by (auto simp: eligibleReviewers_def)
  with assms show ?thesis
    by (simp add: runSelection_def Let_def split: sum.splits)
qed

text \<open>
  C10. Author exclusion is case-insensitive: the eligible pool holds exactly the
  candidates whose lower-cased identity differs from the lower-cased author identity
  (the entry \<^verbatim>\<open>Alice\<close> is excluded for the author \<^verbatim>\<open>alice\<close>); this pool is what
  the selector receives, so a selected reviewer is never the author in any letter case.
\<close>

theorem author_excluded_case_insensitive:
  "(r \<in> set (eligibleReviewers pool prAuthor)
      \<longleftrightarrow> r \<in> set pool \<and> toLowerCase r \<noteq> toLowerCase prAuthor)
   \<and> eligibleReviewers [''Alice'', ''bob''] ''alice'' = [''bob'']
   \<and> (eligibleReviewers pool prAuthor \<noteq> [] \<longrightarrow>
        snd (runSelection (Some pool) urgency prAuthor seed prNumber)
          = map_sum id Some (selectRandomReviewer (eligibleReviewers pool prAuthor) seed prNumber))
   \<and> (snd (runSelection (Some pool) urgency prAuthor seed prNumber) = Inr (Some s) \<longrightarrow>
        s \<in> set pool \<and> toLowerCase s \<noteq> toLowerCase prAuthor)"
proof -
  have ex: "eligibleReviewers [''Alice'', ''bob''] ''alice'' = [''bob'']"
    by code_simp
  have sel: "s \<in> set pool \<and> toLowerCase s \<noteq> toLowerCase prAuthor"
    if h: "snd (runSelection (Some pool) urgency prAuthor seed prNumber) = Inr (Some s)"
  proof (cases "eligibleReviewers pool prAuthor = []")
    case True
    with h show ?thesis
      by (simp add: runSelection_def Let_def split: if_splits)
  next
    case False
    from select_nonempty [OF False, of seed prNumber] obtain r where
      r: "selectRandomReviewer (eligibleReviewers pool prAuthor) seed prNumber = Inr r"
         "r \<in> set (eligibleReviewers pool prAuthor)" by blast
    from h runSelection_selects [OF False, of urgency seed prNumber] r(1) have "s = r" by simp
    with r(2) show ?thesis by (simp add: eligible_mem)
  qed
  from ex sel eligible_mem [of r pool prAuthor] runSelection_selects [of pool prAuthor urgency seed prNumber]
  show ?thesis by blast
qed

theorem author_excluded_case_insensitive_witness:
  "''Alice'' \<notin> set (eligibleReviewers [''Alice'', ''bob''] ''alice'')
   \<and> ''bob'' \<in> set (eligibleReviewers [''Alice'', ''bob''] ''alice'')
   \<and> snd (runSelection (Some [''Alice'', ''bob'']) ''p0'' ''alice'' [] 7) = Inr (Some ''bob'')"
proof -
  have a: "toLowerCase ''Alice'' = toLowerCase ''alice''" by code_simp
  have b: "toLowerCase ''bob'' \<noteq> toLowerCase ''alice''" by code_simp
  have c: "selectRandomReviewer [''bob''] [] 7 = Inr ''bob''" by (simp add: selectRandomReviewer_def)
  from author_excluded_case_insensitive [of "''Alice''" "[''Alice'', ''bob'']" "''alice''" "''p0''" "[]" 7]
       author_excluded_case_insensitive [of "''bob''" "[''Alice'', ''bob'']" "''alice''" "''p0''" "[]" 7]
       a b c
  show ?thesis by simp
qed

end
